theory Spec2Isabelle
  imports Main "HOL-Library.Word" "HOL-Library.AList"
begin

section \<open>JavaScript values, strings and objects\<close>

text \<open>
  A JavaScript string is a sequence of 16-bit code units. The string methods used by
  \<^verbatim>\<open>tryState\<close> (\<^verbatim>\<open>split\<close>, \<^verbatim>\<open>trim\<close>, \<^verbatim>\<open>match\<close> with a regular expression
  without the \<^verbatim>\<open>u\<close> flag) all work on code units.
\<close>

type_synonym js_char = "16 word"
type_synonym js_string = "js_char list"

text \<open>ASCII literals of the source, as code units.\<close>

definition ascii :: "string \<Rightarrow> js_string" where
  "ascii s = map (\<lambda>c. of_nat (of_char c)) s"

text \<open>
  The values a producer can throw or reject with, and the values a context can hold.
  Numbers are represented by their integral values and \<^verbatim>\<open>NaN\<close>; no arithmetic is done
  on them here, only the truthiness test of \<^verbatim>\<open>||\<close>. A string is either the
  primitive (\<open>String\<close>) or a wrapper object made by \<^verbatim>\<open>new String(s)\<close>
  (\<open>StringObject\<close>), which is an object (\<^verbatim>\<open>typeof\<close> gives \<^verbatim>\<open>object\<close>) that
  inherits the string methods. Any other object is its list of data properties in
  insertion order (own or inherited, as property lookup sees them); accessor
  properties, proxies and members that user code made callable are outside the model.
\<close>

datatype js_value =
    Undefined
  | Null
  | Boolean bool
  | Number int
  | NaN
  | String js_string
  | StringObject js_string
  | Object "(js_string \<times> js_value) list"

type_synonym js_object = "(js_string \<times> js_value) list"

text \<open>The one exception the catch block itself can raise.\<close>

datatype js_exception = TypeError

text \<open>\<^verbatim>\<open>ToBoolean\<close>, as used by \<^verbatim>\<open>||\<close>.\<close>

fun truthy :: "js_value \<Rightarrow> bool" where
  "truthy Undefined = False"
| "truthy Null = False"
| "truthy (Boolean b) = b"
| "truthy (Number n) = (n \<noteq> 0)"
| "truthy NaN = False"
| "truthy (String s) = (s \<noteq> [])"
| "truthy (StringObject s) = True"
| "truthy (Object ps) = True"

text \<open>
  Property read \<^verbatim>\<open>v.k\<close>: a \<^verbatim>\<open>TypeError\<close> on \<^verbatim>\<open>undefined\<close> and \<^verbatim>\<open>null\<close>,
  the property's value (or \<^verbatim>\<open>undefined\<close>) on an object. On a primitive the read goes
  to the wrapper's prototype; \<^verbatim>\<open>tryState\<close> reads only \<^verbatim>\<open>stack\<close> and \<^verbatim>\<open>message\<close>,
  which no built-in prototype of a primitive defines, so the result is \<^verbatim>\<open>undefined\<close>.
  The same holds of a String object, whose own properties are its length and its
  indices.
\<close>

fun Get :: "js_value \<Rightarrow> js_string \<Rightarrow> js_exception + js_value" where
  "Get Undefined k = Inl TypeError"
| "Get Null k = Inl TypeError"
| "Get (Object ps) k = Inr (case map_of ps k of None \<Rightarrow> Undefined | Some v \<Rightarrow> v)"
| "Get v k = Inr Undefined"

section \<open>The string methods used by the catch block\<close>

text \<open>
  White space as \<^verbatim>\<open>String.prototype.trim\<close> and the regular-expression class \<^verbatim>\<open>\s\<close>
  define it: the WhiteSpace and LineTerminator code points, all in the basic plane.
\<close>

definition is_white_space :: "js_char \<Rightarrow> bool" where
  "is_white_space c \<longleftrightarrow>
     c \<in> set [0x0009, 0x000A, 0x000B, 0x000C, 0x000D, 0x0020, 0x00A0, 0x1680,
              0x2000, 0x2001, 0x2002, 0x2003, 0x2004, 0x2005, 0x2006, 0x2007,
              0x2008, 0x2009, 0x200A, 0x2028, 0x2029, 0x202F, 0x205F, 0x3000, 0xFEFF]"

definition newline :: js_char where
  "newline = 0x000A"

text \<open>
  \<^verbatim>\<open>s.split(sep)\<close> for a separator of one code unit: the pieces between the
  separators, so the result is never empty (\<^verbatim>\<open>''.split('\n')\<close> is \<^verbatim>\<open>['']\<close>).
\<close>

fun split_str :: "js_char \<Rightarrow> js_string \<Rightarrow> js_string list" where
  "split_str sep [] = [[]]"
| "split_str sep (c # cs) =
     (if c = sep then [] # split_str sep cs
      else (case split_str sep cs of
              [] \<Rightarrow> [[c]]
            | l # ls \<Rightarrow> (c # l) # ls))"

text \<open>
  The text of a value that has the string methods: the primitive string itself, or the
  string a String object wraps. No other value of the model has them.
\<close>

fun string_value :: "js_value \<Rightarrow> js_string option" where
  "string_value (String s) = Some s"
| "string_value (StringObject s) = Some s"
| "string_value v = None"

text \<open>
  The method call \<^verbatim>\<open>stack.split('\n')\<close> on a value: \<^verbatim>\<open>String.prototype.split\<close> splits
  the text of a primitive string or of a String object, and the pieces are primitive
  strings. Any other truthy value of the model has no callable \<^verbatim>\<open>split\<close>, and the
  call raises.
\<close>

definition split_method :: "js_value \<Rightarrow> js_exception + js_string list" where
  "split_method v =
     (case string_value v of
        Some s \<Rightarrow> Inr (split_str newline s)
      | None \<Rightarrow> Inl TypeError)"

text \<open>\<^verbatim>\<open>xs[i]\<close> on an array: \<^verbatim>\<open>undefined\<close> (here \<open>None\<close>) out of range.\<close>

definition index :: "'a list \<Rightarrow> nat \<Rightarrow> 'a option" where
  "index xs i = (if i < length xs then Some (xs ! i) else None)"

definition trim :: "js_string \<Rightarrow> js_string" where
  "trim s = rev (dropWhile is_white_space (rev (dropWhile is_white_space s)))"

definition at_marker :: js_string where
  "at_marker = ascii ''at ''"

text \<open>
  \<^verbatim>\<open>s.match(/at (\S+)/)\<close>, reduced to its first capture group: the leftmost position
  where the literal \<^verbatim>\<open>at \<close> is followed by at least one non-white-space code unit, and
  there the longest run of such code units (the quantifier is greedy and nothing follows
  it). \<open>None\<close> is the \<^verbatim>\<open>null\<close> of a failed match.
\<close>

fun match_at :: "js_string \<Rightarrow> js_string option" where
  "match_at [] = None"
| "match_at (c # cs) =
     (if take 3 (c # cs) = at_marker \<and> takeWhile (\<lambda>x. \<not> is_white_space x) (drop 3 (c # cs)) \<noteq> []
      then Some (takeWhile (\<lambda>x. \<not> is_white_space x) (drop 3 (c # cs)))
      else match_at cs)"

section \<open>The outcome of the producer and of \<^verbatim>\<open>tryState\<close>\<close>

text \<open>
  What \<^verbatim>\<open>await fn()\<close> does: \<^verbatim>\<open>fn\<close> returns a promise that is fulfilled with a value,
  or one that is rejected with a reason, or \<^verbatim>\<open>fn\<close> throws before returning, or the
  promise never settles.
\<close>

datatype 'a producer =
    Resolves 'a
  | Rejects js_value
  | Throws js_value
  | NeverSettles

text \<open>The promise an \<^verbatim>\<open>async\<close> function returns, by its final state.\<close>

datatype 'r promise =
    Fulfilled 'r
  | Rejected js_exception
  | Pending

text \<open>
  The three readings of the system clock: \<^verbatim>\<open>Date.now()\<close> on entry,
  \<^verbatim>\<open>new Date().toISOString()\<close> on entry, and \<^verbatim>\<open>Date.now()\<close> once the producer has
  settled. \<^verbatim>\<open>Date.now()\<close> is wall-clock time in whole milliseconds.
\<close>

record clock =
  now_start :: int
  iso_start :: js_string
  now_settled :: int

record metadata =
  executionTimeMs :: int
  timestamp :: js_string

type_synonym 'a outcome_tuple = "'a \<times> js_object option \<times> metadata option"

definition key_message :: js_string where "key_message = ascii ''message''"
definition key_stack :: js_string where "key_stack = ascii ''stack''"
definition key_function :: js_string where "key_function = ascii ''function''"
definition key_location :: js_string where "key_location = ascii ''location''"

text \<open>The sentinel of line 79, a Portuguese phrase ("location not found") of 26 code
  units; its three letters outside ASCII are U+00E7 (c with cedilla) and U+00E3 (a with
  tilde, twice).\<close>

definition location_sentinel :: js_string where
  "location_sentinel =
     ascii ''Localiza'' @ [0x00E7, 0x00E3] @ ascii ''o n'' @ [0x00E3] @ ascii ''o encontrada''"

definition unknown :: js_string where
  "unknown = ascii ''unknown''"

text \<open>
  Object spread \<^verbatim>\<open>{...obj, ...ctx}\<close>: each property of the context is defined on the
  object in turn, replacing the value of a key already there and appending a new key.
  An absent context (\<^verbatim>\<open>undefined\<close>) spreads nothing.
\<close>

definition spread :: "js_object \<Rightarrow> js_object option \<Rightarrow> js_object" where
  "spread obj additionalContext =
     (case additionalContext of
        None \<Rightarrow> obj
      | Some ctx \<Rightarrow> fold (\<lambda>(k, v). AList.update k v) ctx obj)"

text \<open>Line 77: \<^verbatim>\<open>(error as Error).stack || ''\<close>.\<close>

definition stack_of :: "js_value \<Rightarrow> js_exception + js_value" where
  "stack_of error =
     (case Get error key_stack of
        Inl x \<Rightarrow> Inl x
      | Inr st \<Rightarrow> Inr (if truthy st then st else String []))"

text \<open>Line 79: \<^verbatim>\<open>stackLines[1]?.trim() || sentinel\<close>.\<close>

definition relevantLine :: "js_string list \<Rightarrow> js_string" where
  "relevantLine stackLines =
     (case index stackLines 1 of
        None \<Rightarrow> location_sentinel
      | Some l \<Rightarrow> if trim l = [] then location_sentinel else trim l)"

text \<open>Lines 80 and 81.\<close>

definition functionName :: "js_string \<Rightarrow> js_string" where
  "functionName line =
     (case match_at line of
        Some g \<Rightarrow> g
      | None \<Rightarrow> unknown)"

text \<open>The body of the \<^verbatim>\<open>catch\<close> clause, lines 76 to 95.\<close>

definition catch_clause ::
  "clock \<Rightarrow> js_value \<Rightarrow> 'a \<Rightarrow> js_object option \<Rightarrow> js_exception + 'a outcome_tuple" where
  "catch_clause clk error initialValue additionalContext =
     (let executionTimeMs = now_settled clk - now_start clk in
      case stack_of error of
        Inl x \<Rightarrow> Inl x
      | Inr stack \<Rightarrow>
          (case split_method stack of
             Inl x \<Rightarrow> Inl x
           | Inr stackLines \<Rightarrow>
               (case Get error key_message of
                  Inl x \<Rightarrow> Inl x
                | Inr message \<Rightarrow>
                    (let errorDetails =
                           spread [(key_message, message),
                                   (key_stack, stack),
                                   (key_function, String (functionName (relevantLine stackLines))),
                                   (key_location, String (relevantLine stackLines))]
                                  additionalContext
                     in Inr (initialValue,
                             Some errorDetails,
                             Some \<lparr>executionTimeMs = executionTimeMs,
                                   timestamp = iso_start clk\<rparr>)))))"

definition settle :: "js_exception + 'r \<Rightarrow> 'r promise" where
  "settle r = (case r of Inl x \<Rightarrow> Rejected x | Inr v \<Rightarrow> Fulfilled v)"

text \<open>
  \<^verbatim>\<open>tryState\<close>, lines 59 to 97. The \<^verbatim>\<open>try\<close> block covers both the call of the
  producer and the \<^verbatim>\<open>await\<close>, so a synchronous throw and a rejection reach the same
  \<^verbatim>\<open>catch\<close> clause. An exception raised inside the \<^verbatim>\<open>catch\<close> clause is not caught
  again: it rejects the promise \<^verbatim>\<open>tryState\<close> returned.
\<close>

definition tryState ::
  "clock \<Rightarrow> 'a producer \<Rightarrow> 'a \<Rightarrow> js_object option \<Rightarrow> 'a outcome_tuple promise" where
  "tryState clk fn initialValue additionalContext =
     (case fn of
        Resolves result \<Rightarrow>
          Fulfilled (result,
                     None,
                     Some \<lparr>executionTimeMs = now_settled clk - now_start clk,
                           timestamp = iso_start clk\<rparr>)
      | Rejects error \<Rightarrow> settle (catch_clause clk error initialValue additionalContext)
      | Throws error \<Rightarrow> settle (catch_clause clk error initialValue additionalContext)
      | NeverSettles \<Rightarrow> Pending)"

section \<open>Observations on the arguments and on the result\<close>

text \<open>The keys of the context argument, none when it is absent.\<close>

definition context_keys :: "js_object option \<Rightarrow> js_string list" where
  "context_keys additionalContext =
     (case additionalContext of None \<Rightarrow> [] | Some ctx \<Rightarrow> map fst ctx)"

text \<open>
  The four fixed fields of the object literal of lines 83 to 89, before the spread, for
  a message, the value of \<^verbatim>\<open>stack\<close> and its text.
\<close>

definition fixed_fields :: "js_value \<Rightarrow> js_value \<Rightarrow> js_string \<Rightarrow> js_object" where
  "fixed_fields message stack s =
     [(key_message, message),
      (key_stack, stack),
      (key_function, String (functionName (relevantLine (split_str newline s)))),
      (key_location, String (relevantLine (split_str newline s)))]"

text \<open>
  The second element of the tuple a fulfilled call returned, and the read \<^verbatim>\<open>err.k\<close> of
  one of its properties; \<open>None\<close> where there is no such element or no such property.
\<close>

definition returned_error :: "'a outcome_tuple promise \<Rightarrow> js_object option" where
  "returned_error p = (case p of Fulfilled (v, err, meta) \<Rightarrow> err | _ \<Rightarrow> None)"

definition error_field :: "'a outcome_tuple promise \<Rightarrow> js_string \<Rightarrow> js_value option" where
  "error_field p k = (case returned_error p of None \<Rightarrow> None | Some err \<Rightarrow> map_of err k)"

text \<open>
  A sample call, after the third example of the README: a producer that throws
  \<^verbatim>\<open>new Error('Simulated Task Error')\<close>, with a trace of two lines, and a context.
\<close>

definition sample_clock :: clock where
  "sample_clock =
     \<lparr>now_start = 1000, iso_start = ascii ''2024-11-23T16:00:00.000Z'', now_settled = 1502\<rparr>"

definition sample_trace :: js_string where
  "sample_trace =
     ascii ''Error: Simulated Task Error'' @ [newline] @ ascii ''    at performTask (task.js:4:9)''"

definition sample_error :: js_value where
  "sample_error =
     Object [(key_message, String (ascii ''Simulated Task Error'')),
             (key_stack, String sample_trace)]"

definition sample_context :: "js_object option" where
  "sample_context =
     Some [(ascii ''taskId'', Number 1234), (ascii ''taskType'', String (ascii ''simulation''))]"

text \<open>What the sample call returns.\<close>

definition sample_details :: js_object where
  "sample_details =
     [(key_message, String (ascii ''Simulated Task Error'')),
      (key_stack, String sample_trace),
      (key_function, String (ascii ''performTask'')),
      (key_location, String (ascii ''at performTask (task.js:4:9)'')),
      (ascii ''taskId'', Number 1234),
      (ascii ''taskType'', String (ascii ''simulation''))]"

definition sample_metadata :: metadata where
  "sample_metadata =
     \<lparr>executionTimeMs = 502, timestamp = ascii ''2024-11-23T16:00:00.000Z''\<rparr>"

section \<open>Properties of the helper functions\<close>

lemma length_at_marker: "length at_marker = 3"
  by (simp add: at_marker_def ascii_def)

lemma split_str_not_Nil: "split_str sep s \<noteq> []"
  by (induction s) (auto split: list.splits)

lemma fixed_keys_distinct:
  "key_message \<noteq> key_stack" "key_message \<noteq> key_function" "key_message \<noteq> key_location"
  "key_stack \<noteq> key_function" "key_stack \<noteq> key_location" "key_function \<noteq> key_location"
  by (simp_all add: key_message_def key_stack_def key_function_def key_location_def ascii_def)

lemma map_of_fold_update:
  "map_of (fold (\<lambda>(k, v). AList.update k v) ctx obj) = map_of obj ++ map_of (rev ctx)"
proof (induction ctx arbitrary: obj)
  case Nil
  then show ?case by simp
next
  case (Cons p ctx)
  obtain k v where p: "p = (k, v)" by (cases p)
  have "map_of (fold (\<lambda>(k, v). AList.update k v) (p # ctx) obj)
        = map_of (AList.update k v obj) ++ map_of (rev ctx)"
    using Cons.IH [of "AList.update k v obj"] by (simp add: p)
  also have "\<dots> = (map_of obj)(k \<mapsto> v) ++ map_of (rev ctx)"
    by (simp add: update_conv')
  also have "\<dots> = map_of obj ++ map_of (rev (p # ctx))"
    by (simp add: p map_add_upd_left fun_eq_iff map_add_def split: option.splits)
  finally show ?case .
qed

lemma map_of_spread_other:
  "k \<notin> set (context_keys additionalContext) \<Longrightarrow>
   map_of (spread obj additionalContext) k = map_of obj k"
proof (cases additionalContext)
  case None
  then show ?thesis by (simp add: spread_def)
next
  case (Some ctx)
  assume "k \<notin> set (context_keys additionalContext)"
  then have "k \<notin> fst ` set (rev ctx)"
    by (simp add: context_keys_def Some)
  then have "map_of (rev ctx) k = None"
    by (simp add: map_of_eq_None_iff)
  then show ?thesis
    by (simp add: spread_def Some map_of_fold_update map_add_def)
qed

lemma map_of_spread_context:
  "distinct (map fst ctx) \<Longrightarrow> (k, v) \<in> set ctx \<Longrightarrow>
   map_of (spread obj (Some ctx)) k = Some v"
proof -
  assume "distinct (map fst ctx)" and "(k, v) \<in> set ctx"
  then have "distinct (map fst (rev ctx))" and "(k, v) \<in> set (rev ctx)"
    by (simp_all add: rev_map [symmetric])
  then have "map_of (rev ctx) k = Some v"
    by (rule map_of_is_SomeI)
  then show ?thesis
    by (simp add: spread_def map_of_fold_update map_add_def)
qed


lemma Get_defined_any_key: "Get v k = Inr a \<Longrightarrow> \<exists>b. Get v k' = Inr b"
  by (cases v) simp_all

lemma stack_of_Inr_Get: "stack_of error = Inr st \<Longrightarrow> \<exists>m. Get error key_message = Inr m"
  by (cases error) (simp_all add: stack_of_def)

lemma split_method_Inr:
  "split_method v = Inr ls \<Longrightarrow> \<exists>s. string_value v = Some s \<and> ls = split_str newline s"
  by (simp add: split_method_def split: option.splits)

lemma catch_clause_string:
  assumes "stack_of error = Inr stack" and "string_value stack = Some s"
    and "Get error key_message = Inr message"
  shows "catch_clause clk error initialValue additionalContext =
           Inr (initialValue,
                Some (spread (fixed_fields message stack s) additionalContext),
                Some \<lparr>executionTimeMs = now_settled clk - now_start clk,
                      timestamp = iso_start clk\<rparr>)"
  using assms by (simp add: catch_clause_def fixed_fields_def split_method_def)

lemma catch_clause_Inr:
  assumes "catch_clause clk error initialValue additionalContext = Inr r"
  shows "\<exists>stack s message.
           stack_of error = Inr stack \<and> string_value stack = Some s \<and>
           Get error key_message = Inr message \<and>
           r = (initialValue,
                Some (spread (fixed_fields message stack s) additionalContext),
                Some \<lparr>executionTimeMs = now_settled clk - now_start clk,
                      timestamp = iso_start clk\<rparr>)"
  using assms
  by (auto simp: catch_clause_def fixed_fields_def Let_def split: sum.splits dest!: split_method_Inr)

lemma tryState_failure:
  assumes "fn = Rejects error \<or> fn = Throws error"
    and "stack_of error = Inr stack" and "string_value stack = Some s"
    and "Get error key_message = Inr message"
  shows "tryState clk fn initialValue additionalContext =
           Fulfilled (initialValue,
                Some (spread (fixed_fields message stack s) additionalContext),
                Some \<lparr>executionTimeMs = now_settled clk - now_start clk,
                      timestamp = iso_start clk\<rparr>)"
  using assms(1) catch_clause_string [OF assms(2,3,4), of clk initialValue additionalContext]
  by (auto simp: tryState_def settle_def)

lemma tryState_Fulfilled_error:
  assumes "tryState clk fn initialValue additionalContext = Fulfilled (v, Some err, meta)"
  shows "\<exists>error stack s message. (fn = Rejects error \<or> fn = Throws error) \<and>
           stack_of error = Inr stack \<and> string_value stack = Some s \<and>
           Get error key_message = Inr message \<and>
           v = initialValue \<and> err = spread (fixed_fields message stack s) additionalContext \<and>
           meta = Some \<lparr>executionTimeMs = now_settled clk - now_start clk,
                        timestamp = iso_start clk\<rparr>"
proof (cases fn)
  case (Resolves x)
  with assms show ?thesis by (simp add: tryState_def)
next
  case (Rejects e)
  with assms have "catch_clause clk e initialValue additionalContext = Inr (v, Some err, meta)"
    by (simp add: tryState_def settle_def split: sum.splits)
  from catch_clause_Inr [OF this] Rejects show ?thesis by auto
next
  case (Throws e)
  with assms have "catch_clause clk e initialValue additionalContext = Inr (v, Some err, meta)"
    by (simp add: tryState_def settle_def split: sum.splits)
  from catch_clause_Inr [OF this] Throws show ?thesis by auto
next
  case NeverSettles
  with assms show ?thesis by (simp add: tryState_def)
qed

lemma map_of_fixed_fields:
  "map_of (fixed_fields message stack s) key_message = Some message"
  "map_of (fixed_fields message stack s) key_stack = Some stack"
  "map_of (fixed_fields message stack s) key_function =
     Some (String (functionName (relevantLine (split_str newline s))))"
  "map_of (fixed_fields message stack s) key_location =
     Some (String (relevantLine (split_str newline s)))"
  using fixed_keys_distinct by (simp_all add: fixed_fields_def)

section \<open>Properties of trimming and of the match\<close>

lemma rev_dropWhile_takeWhile:
  "rev (dropWhile P (rev xs)) @ rev (takeWhile P (rev xs)) = xs"
proof -
  have "rev (dropWhile P (rev xs)) @ rev (takeWhile P (rev xs))
        = rev (takeWhile P (rev xs) @ dropWhile P (rev xs))"
    by (simp only: rev_append)
  also have "\<dots> = rev (rev xs)"
    by (simp only: takeWhile_dropWhile_id)
  finally show ?thesis by simp
qed

lemma dropWhile_eq_trim:
  "dropWhile is_white_space s
   = trim s @ rev (takeWhile is_white_space (rev (dropWhile is_white_space s)))"
  unfolding trim_def by (simp only: rev_dropWhile_takeWhile)

lemma trim_decompose:
  "\<exists>pre post. s = pre @ trim s @ post \<and>
     (\<forall>c \<in> set pre. is_white_space c) \<and> (\<forall>c \<in> set post. is_white_space c)"
proof -
  let ?d = "dropWhile is_white_space s"
  let ?post = "rev (takeWhile is_white_space (rev ?d))"
  have "s = takeWhile is_white_space s @ ?d"
    by simp
  also have "?d = trim s @ ?post"
    by (rule dropWhile_eq_trim)
  finally have "s = takeWhile is_white_space s @ trim s @ ?post" .
  moreover have "\<forall>c \<in> set (takeWhile is_white_space s). is_white_space c"
    by (auto dest: set_takeWhileD)
  moreover have "\<forall>c \<in> set ?post. is_white_space c"
    by (auto dest: set_takeWhileD)
  ultimately show ?thesis by blast
qed

lemma trim_Nil_iff: "trim s = [] \<longleftrightarrow> (\<forall>c \<in> set s. is_white_space c)"
proof
  assume t: "trim s = []"
  from trim_decompose [of s] obtain pre post where
    "s = pre @ trim s @ post" "\<forall>c \<in> set pre. is_white_space c" "\<forall>c \<in> set post. is_white_space c"
    by blast
  with t have "s = pre @ post" by simp
  then have "set s = set pre \<union> set post" by simp
  with \<open>\<forall>c \<in> set pre. is_white_space c\<close> \<open>\<forall>c \<in> set post. is_white_space c\<close>
  show "\<forall>c \<in> set s. is_white_space c" by blast
next
  assume "\<forall>c \<in> set s. is_white_space c"
  then have "dropWhile is_white_space s = []" by simp
  then show "trim s = []" by (simp only: trim_def dropWhile.simps rev.simps)
qed

lemma trim_ends:
  assumes "trim s \<noteq> []"
  shows "\<not> is_white_space (hd (trim s))" and "\<not> is_white_space (last (trim s))"
proof -
  let ?d = "dropWhile is_white_space s"
  let ?e = "dropWhile is_white_space (rev ?d)"
  from assms have e: "?e \<noteq> []" by (simp add: trim_def)
  then have "\<not> is_white_space (hd ?e)" by (rule hd_dropWhile)
  moreover have "last (trim s) = hd ?e"
    using e by (simp add: trim_def last_rev)
  ultimately show "\<not> is_white_space (last (trim s))" by simp
  have d: "?d \<noteq> []"
  proof
    assume "?d = []"
    then have "?e = []" by (simp only: dropWhile.simps rev.simps)
    with e show False by contradiction
  qed
  then have nd: "\<not> is_white_space (hd ?d)" by (rule hd_dropWhile)
  have "hd ?d = hd (trim s @ rev (takeWhile is_white_space (rev ?d)))"
    using dropWhile_eq_trim [of s] by (rule arg_cong)
  also have "\<dots> = hd (trim s)"
    using assms by (rule hd_append2)
  finally show "\<not> is_white_space (hd (trim s))" using nd by simp
qed

lemma match_at_None:
  "match_at s = None \<Longrightarrow> s = p @ at_marker @ q \<Longrightarrow> q = [] \<or> is_white_space (hd q)"
proof (induction s arbitrary: p)
  case Nil
  then show ?case by (simp add: at_marker_def ascii_def)
next
  case (Cons c cs)
  show ?case
  proof (cases p)
    case Nil
    with Cons.prems(2) have "take 3 (c # cs) = at_marker" "drop 3 (c # cs) = q"
      using length_at_marker by simp_all
    with Cons.prems(1) have "takeWhile (\<lambda>x. \<not> is_white_space x) q = []"
      by (simp split: if_splits)
    then show ?thesis by (cases q) (simp_all split: if_splits)
  next
    case (Cons x p')
    with Cons.prems(2) have "cs = p' @ at_marker @ q" by simp
    moreover from Cons.prems(1) have "match_at cs = None" by (simp split: if_splits)
    ultimately show ?thesis by (rule Cons.IH [rotated])
  qed
qed

lemma match_at_Some:
  "match_at s = Some g \<Longrightarrow>
   \<exists>p r. s = p @ at_marker @ g @ r \<and> g \<noteq> [] \<and> (\<forall>c \<in> set g. \<not> is_white_space c) \<and>
         (r = [] \<or> is_white_space (hd r)) \<and>
         (\<forall>p' q'. s = p' @ at_marker @ q' \<and> length p' < length p \<longrightarrow>
                  q' = [] \<or> is_white_space (hd q'))"
proof (induction s)
  case Nil
  then show ?case by simp
next
  case (Cons c cs)
  let ?s = "c # cs"
  let ?g = "takeWhile (\<lambda>x. \<not> is_white_space x) (drop 3 ?s)"
  let ?r = "dropWhile (\<lambda>x. \<not> is_white_space x) (drop 3 ?s)"
  show ?case
  proof (cases "take 3 ?s = at_marker \<and> ?g \<noteq> []")
    case True
    with Cons.prems have g: "g = ?g" by simp
    from True have t: "take 3 ?s = at_marker" by blast
    have "?s = take 3 ?s @ ?g @ ?r"
      by (simp only: takeWhile_dropWhile_id append_take_drop_id)
    then have "?s = at_marker @ g @ ?r"
      by (simp only: t g)
    then have "?s = [] @ at_marker @ g @ ?r"
      by (simp only: append_Nil)
    moreover have "g \<noteq> []" using True g by simp
    moreover have "\<forall>c \<in> set g. \<not> is_white_space c"
      unfolding g by (auto dest: set_takeWhileD)
    moreover have "?r = [] \<or> is_white_space (hd ?r)"
      using hd_dropWhile [of "\<lambda>x. \<not> is_white_space x" "drop 3 ?s"] by blast
    moreover have "\<forall>p' q'. ?s = p' @ at_marker @ q' \<and> length p' < length ([] :: js_string) \<longrightarrow>
                  q' = [] \<or> is_white_space (hd q')"
      by simp
    ultimately show ?thesis by blast
  next
    case False
    with Cons.prems have m: "match_at cs = Some g" by (simp split: if_splits)
    from Cons.IH [OF m] obtain p r where
      cs: "cs = p @ at_marker @ g @ r" and g: "g \<noteq> []" "\<forall>c \<in> set g. \<not> is_white_space c"
      and r: "r = [] \<or> is_white_space (hd r)"
      and left: "\<forall>p' q'. cs = p' @ at_marker @ q' \<and> length p' < length p \<longrightarrow>
                  q' = [] \<or> is_white_space (hd q')"
      by blast
    have "\<forall>p' q'. ?s = p' @ at_marker @ q' \<and> length p' < length (c # p) \<longrightarrow>
                  q' = [] \<or> is_white_space (hd q')"
    proof (intro allI impI)
      fix p' q'
      assume a: "?s = p' @ at_marker @ q' \<and> length p' < length (c # p)"
      show "q' = [] \<or> is_white_space (hd q')"
      proof (cases p')
        case Nil
        with a have "take 3 ?s = at_marker" "drop 3 ?s = q'"
          using length_at_marker by simp_all
        with False have "takeWhile (\<lambda>x. \<not> is_white_space x) q' = []" by simp
        then show ?thesis by (cases q') (simp_all split: if_splits)
      next
        case (Cons x p'')
        with a have "cs = p'' @ at_marker @ q' \<and> length p'' < length p" by simp
        with left show ?thesis by blast
      qed
    qed
    moreover from cs have "?s = (c # p) @ at_marker @ g @ r" by simp
    ultimately show ?thesis using g r by blast
  qed
qed

lemma functionName_shape:
  "functionName line \<noteq> [] \<and> (\<forall>c \<in> set (functionName line). \<not> is_white_space c)"
proof (cases "match_at line")
  case None
  then show ?thesis
    by (simp add: functionName_def unknown_def ascii_def is_white_space_def)
next
  case (Some g)
  with match_at_Some [OF Some] show ?thesis
    by (auto simp: functionName_def)
qed

lemma functionName_sentinel: "functionName location_sentinel = unknown"
  by (simp add: functionName_def location_sentinel_def ascii_def at_marker_def)

section \<open>The success path\<close>

text \<open>
  C3. For every producer that resolves to \<open>v\<close>, every fallback and every reading of the
  clock, \<^verbatim>\<open>tryState\<close> is fulfilled with the tuple \<open>[v, null, metadata]\<close>, the metadata
  present, and its \<^verbatim>\<open>executionTimeMs\<close> is the difference of the two readings of
  \<^verbatim>\<open>Date.now()\<close>. That difference is non-negative when the second reading is not
  earlier than the first.
\<close>

theorem tryState_success_shape:
  "\<exists>meta. tryState clk (Resolves v) initialValue additionalContext
            = Fulfilled (v, None, Some meta) \<and>
          executionTimeMs meta = now_settled clk - now_start clk \<and>
          (now_start clk \<le> now_settled clk \<longrightarrow> 0 \<le> executionTimeMs meta)"
  by (simp add: tryState_def)

theorem tryState_success_shape_witness:
  "now_start sample_clock \<le> now_settled sample_clock \<and>
   (\<exists>meta. tryState sample_clock (Resolves (7::nat)) 0 None = Fulfilled (7, None, Some meta) \<and>
          executionTimeMs meta = 502 \<and>
          0 \<le> executionTimeMs meta)"
proof -
  have clock: "now_start sample_clock \<le> now_settled sample_clock"
    and diff: "now_settled sample_clock - now_start sample_clock = 502"
    by (simp_all add: sample_clock_def)
  from tryState_success_shape [of sample_clock "7::nat" 0 None] obtain meta where
    "tryState sample_clock (Resolves (7::nat)) 0 None = Fulfilled (7, None, Some meta)"
    and "executionTimeMs meta = now_settled sample_clock - now_start sample_clock"
    and "now_start sample_clock \<le> now_settled sample_clock \<longrightarrow> 0 \<le> executionTimeMs meta"
    by blast
  with clock diff show ?thesis by auto
qed

text \<open>
  \<^verbatim>\<open>Date.now()\<close> is wall-clock time: when the system clock is set back by a
  millisecond between the two readings, a resolving producer gets \<^verbatim>\<open>executionTimeMs\<close>
  \<open>- 1\<close>.
\<close>

theorem tryState_negative_time_counterexample:
  "tryState \<lparr>now_start = 1000, iso_start = ascii ''2024-11-23T16:00:00.000Z'', now_settled = 999\<rparr>
     (Resolves (7::nat)) 0 None
   = Fulfilled (7, None, Some \<lparr>executionTimeMs = - 1,
                               timestamp = ascii ''2024-11-23T16:00:00.000Z''\<rparr>)"
  by (simp add: tryState_def)

text \<open>
  C7. The context argument has no influence on the success path: for a producer that
  resolves, two calls that differ only in the context (supplied or absent) return the
  same tuple.
\<close>

theorem tryState_success_ignores_context:
  "tryState clk (Resolves v) initialValue additionalContext
   = tryState clk (Resolves v) initialValue additionalContext'"
  by (simp add: tryState_def)

section \<open>Thrown values the catch clause cannot read\<close>

text \<open>
  C1. \<^verbatim>\<open>tryState\<close> is meant to turn every failure of the producer into a returned
  value. It does not when the producer throws or rejects with \<^verbatim>\<open>null\<close> or
  \<^verbatim>\<open>undefined\<close>: line 77 reads \<^verbatim>\<open>error.stack\<close>, the read raises a
  \<^verbatim>\<open>TypeError\<close> inside the \<^verbatim>\<open>catch\<close> clause, and the promise of \<^verbatim>\<open>tryState\<close>
  is rejected. The same happens at line 78 when the thrown object has a truthy
  \<^verbatim>\<open>stack\<close> that is not a string.
\<close>

theorem tryState_rejects_on_thrown_null:
  "tryState clk (Rejects Null) initialValue additionalContext = Rejected TypeError \<and>
   tryState clk (Rejects Undefined) initialValue additionalContext = Rejected TypeError \<and>
   tryState clk (Throws Null) initialValue additionalContext = Rejected TypeError \<and>
   tryState clk (Throws Undefined) initialValue additionalContext = Rejected TypeError \<and>
   tryState clk (Rejects (Object [(key_stack, Number 42)])) initialValue additionalContext
     = Rejected TypeError"
  by (simp add: tryState_def settle_def catch_clause_def stack_of_def split_method_def)

section \<open>The failure path\<close>

lemmas sample_defs = sample_clock_def sample_trace_def sample_error_def sample_context_def
  key_message_def key_stack_def key_function_def key_location_def ascii_def newline_def

lemma relevantLine_empty_trace: "relevantLine [[]] = location_sentinel"
  by (simp add: relevantLine_def index_def)

lemma stack_of_falsy:
  "Get error key_stack = Inr st \<Longrightarrow> \<not> truthy st \<Longrightarrow> stack_of error = Inr (String [])"
  by (simp add: stack_of_def)

text \<open>
  C2. For a producer that rejects or throws a value whose \<^verbatim>\<open>message\<close> is \<open>m\<close> and whose
  \<^verbatim>\<open>stack\<close> is a string or falsy (so that \<^verbatim>\<open>error.stack || ''\<close> is a string, a
  primitive or a String object, with text \<open>s\<close>), for every fallback and for every
  context, absent or not, that has no key \<^verbatim>\<open>message\<close>,
  \<^verbatim>\<open>tryState\<close> is fulfilled with \<open>[fallback, err, metadata]\<close>: the first element is the
  fallback as passed, \<open>err\<close> and the metadata are present, and \<^verbatim>\<open>err.message\<close> is \<open>m\<close>.
\<close>

theorem tryState_failure_shape:
  assumes "fn = Rejects error \<or> fn = Throws error"
    and "Get error key_message = Inr m"
    and "stack_of error = Inr stack" and "string_value stack = Some s"
    and "key_message \<notin> set (context_keys additionalContext)"
  shows "\<exists>err meta. tryState clk fn initialValue additionalContext
                      = Fulfilled (initialValue, Some err, Some meta) \<and>
                    map_of err key_message = Some m"
proof -
  have "map_of (spread (fixed_fields m stack s) additionalContext) key_message = Some m"
    using assms(5) by (simp add: map_of_spread_other map_of_fixed_fields)
  with tryState_failure [OF assms(1,3,4,2), of clk initialValue additionalContext]
  show ?thesis by blast
qed

theorem tryState_failure_shape_witness:
  "(Rejects sample_error = Rejects sample_error \<or> Rejects sample_error = Throws sample_error) \<and>
   Get sample_error key_message = Inr (String (ascii ''Simulated Task Error'')) \<and>
   stack_of sample_error = Inr (String sample_trace) \<and>
   string_value (String sample_trace) = Some sample_trace \<and>
   key_message \<notin> set (context_keys sample_context) \<and>
   (\<exists>err meta. tryState sample_clock (Rejects sample_error) ''Default Value'' sample_context
                  = Fulfilled (''Default Value'', Some err, Some meta) \<and>
                map_of err key_message = Some (String (ascii ''Simulated Task Error'')))"
proof -
  have h1: "Rejects sample_error = Rejects sample_error \<or> Rejects sample_error = Throws sample_error"
    by simp
  have h2: "Get sample_error key_message = Inr (String (ascii ''Simulated Task Error''))"
    by (simp add: sample_defs)
  have h3: "stack_of sample_error = Inr (String sample_trace)"
    by (simp add: stack_of_def sample_defs)
  have h3': "string_value (String sample_trace) = Some sample_trace"
    by simp
  have h4: "key_message \<notin> set (context_keys sample_context)"
    by (simp add: context_keys_def sample_defs)
  from tryState_failure_shape [OF h1 h2 h3 h3' h4, of sample_clock "''Default Value''"]
    h1 h2 h3 h3' h4
  show ?thesis by blast
qed

text \<open>
  With a context that has the key \<^verbatim>\<open>message\<close>, the spread of line 88 replaces the
  message of the thrown value: the producer rejects with message \<^verbatim>\<open>m\<close> and
  \<^verbatim>\<open>err.message\<close> is \<^verbatim>\<open>x\<close>.
\<close>

theorem tryState_message_overwritten_counterexample:
  "Get (Object [(key_message, String (ascii ''m''))]) key_message = Inr (String (ascii ''m'')) \<and>
   error_field
     (tryState sample_clock (Rejects (Object [(key_message, String (ascii ''m''))])) (0::nat)
        (Some [(key_message, String (ascii ''x''))]))
     key_message
   = Some (String (ascii ''x''))"
  by (simp add: error_field_def returned_error_def tryState_def settle_def catch_clause_def
      stack_of_def split_method_def spread_def sample_defs)

text \<open>
  C4. For a producer that fails with a value other than \<^verbatim>\<open>null\<close> and \<^verbatim>\<open>undefined\<close>
  whose \<^verbatim>\<open>stack\<close> is absent, empty or otherwise falsy, and a context (absent or not)
  without the keys \<^verbatim>\<open>location\<close> and \<^verbatim>\<open>function\<close>, \<^verbatim>\<open>tryState\<close> is fulfilled with
  its failure tuple, \<^verbatim>\<open>err.location\<close> is the sentinel of line 79 (the Portuguese
  phrase, not the English words) and \<^verbatim>\<open>err.function\<close> is \<^verbatim>\<open>unknown\<close>.
\<close>

theorem tryState_no_trace:
  assumes "fn = Rejects error \<or> fn = Throws error"
    and "Get error key_stack = Inr st" and "\<not> truthy st"
    and "key_location \<notin> set (context_keys additionalContext)"
    and "key_function \<notin> set (context_keys additionalContext)"
  shows "\<exists>err meta. tryState clk fn initialValue additionalContext
                      = Fulfilled (initialValue, Some err, Some meta) \<and>
                    map_of err key_location = Some (String location_sentinel) \<and>
                    map_of err key_function = Some (String unknown)"
proof -
  from assms(2,3) have s: "stack_of error = Inr (String [])"
    by (rule stack_of_falsy)
  then obtain m where m: "Get error key_message = Inr m"
    using stack_of_Inr_Get by blast
  have v: "string_value (String []) = Some []" by simp
  let ?err = "spread (fixed_fields m (String []) []) additionalContext"
  have "map_of ?err key_location = Some (String location_sentinel)"
    using assms(4) by (simp add: map_of_spread_other map_of_fixed_fields relevantLine_empty_trace)
  moreover have "map_of ?err key_function = Some (String unknown)"
    using assms(5)
    by (simp add: map_of_spread_other map_of_fixed_fields relevantLine_empty_trace
        functionName_sentinel)
  ultimately show ?thesis
    using tryState_failure [OF assms(1) s v m, of clk initialValue additionalContext] by blast
qed

theorem tryState_no_trace_witness:
  "(Throws (String (ascii ''oops'')) = Rejects (String (ascii ''oops'')) \<or>
    Throws (String (ascii ''oops'')) = Throws (String (ascii ''oops''))) \<and>
   Get (String (ascii ''oops'')) key_stack = Inr Undefined \<and>
   \<not> truthy Undefined \<and>
   key_location \<notin> set (context_keys sample_context) \<and>
   key_function \<notin> set (context_keys sample_context) \<and>
   (\<exists>err meta. tryState sample_clock (Throws (String (ascii ''oops''))) ''Default Value''
                  sample_context
                = Fulfilled (''Default Value'', Some err, Some meta) \<and>
              map_of err key_location = Some (String location_sentinel) \<and>
              map_of err key_function = Some (String unknown))"
proof -
  let ?e = "String (ascii ''oops'')"
  have h1: "Throws ?e = Rejects ?e \<or> Throws ?e = (Throws ?e :: string producer)" by simp
  have h2: "Get ?e key_stack = Inr Undefined" by simp
  have h3: "\<not> truthy Undefined" by simp
  have h4: "key_location \<notin> set (context_keys sample_context)"
    by (simp add: context_keys_def sample_defs)
  have h5: "key_function \<notin> set (context_keys sample_context)"
    by (simp add: context_keys_def sample_defs)
  from tryState_no_trace [OF h1 h2 h3 h4 h5, of sample_clock "''Default Value''"] h1 h2 h3 h4 h5
  show ?thesis by blast
qed

text \<open>
  The sentinel is not the string \<^verbatim>\<open>location not found\<close>: for a thrown object without
  a \<^verbatim>\<open>stack\<close>, \<^verbatim>\<open>err.location\<close> is the 26 code units of line 79.
\<close>

theorem tryState_sentinel_text_counterexample:
  "Get (Object [(key_message, String (ascii ''m''))]) key_stack = Inr Undefined \<and>
   error_field
     (tryState sample_clock (Rejects (Object [(key_message, String (ascii ''m''))])) (0::nat) None)
     key_location
   = Some (String location_sentinel) \<and>
   location_sentinel \<noteq> ascii ''location not found''"
  by (simp add: error_field_def returned_error_def tryState_def settle_def catch_clause_def
      stack_of_def split_method_def spread_def relevantLine_def index_def location_sentinel_def
      sample_defs)

section \<open>The sample call, evaluated\<close>

lemma sample_lines:
  "split_str newline sample_trace
   = [ascii ''Error: Simulated Task Error'', ascii ''    at performTask (task.js:4:9)'']"
  by (simp add: sample_trace_def ascii_def newline_def)

lemma sample_relevantLine:
  "relevantLine (split_str newline sample_trace) = ascii ''at performTask (task.js:4:9)''"
  by (simp add: sample_lines relevantLine_def index_def)
     (simp add: trim_def ascii_def is_white_space_def)

lemma sample_functionName:
  "functionName (ascii ''at performTask (task.js:4:9)'') = ascii ''performTask''"
  by (simp add: functionName_def ascii_def at_marker_def is_white_space_def)

lemma sample_stack_of: "stack_of sample_error = Inr (String sample_trace)"
  by (simp add: stack_of_def sample_error_def sample_trace_def key_message_def key_stack_def
      ascii_def)

lemma sample_string_value: "string_value (String sample_trace) = Some sample_trace"
  by simp

lemma sample_message:
  "Get sample_error key_message = Inr (String (ascii ''Simulated Task Error''))"
  by (simp add: sample_error_def)

lemma sample_spread:
  "spread (fixed_fields (String (ascii ''Simulated Task Error'')) (String sample_trace)
             sample_trace) sample_context
   = sample_details"
  unfolding fixed_fields_def sample_relevantLine sample_functionName
  by (simp add: spread_def sample_context_def sample_details_def key_message_def key_stack_def
      key_function_def key_location_def ascii_def)

lemma sample_run:
  "tryState sample_clock (Rejects sample_error) initialValue sample_context
   = Fulfilled (initialValue, Some sample_details, Some sample_metadata)"
proof -
  have "Rejects sample_error = Rejects sample_error \<or> Rejects sample_error = (Throws sample_error :: 'a producer)"
    by simp
  from tryState_failure [OF this sample_stack_of sample_string_value sample_message,
      of sample_clock initialValue sample_context]
  show ?thesis
    by (simp add: sample_spread) (simp add: sample_metadata_def sample_clock_def)
qed

lemma sample_keys:
  "key_message \<notin> set (context_keys sample_context)"
  "key_stack \<notin> set (context_keys sample_context)"
  "key_function \<notin> set (context_keys sample_context)"
  "key_location \<notin> set (context_keys sample_context)"
  by (simp_all add: context_keys_def sample_defs)

lemma sample_fails:
  "Rejects sample_error = Rejects sample_error \<or> Rejects sample_error = (Throws sample_error :: 'a producer)"
  by simp

section \<open>Trace parsing\<close>

lemma functionName_cases:
  "(functionName line = unknown \<and>
      (\<forall>p q. line = p @ at_marker @ q \<longrightarrow> q = [] \<or> is_white_space (hd q)))
   \<or> (\<exists>p r. line = p @ at_marker @ functionName line @ r \<and>
          functionName line \<noteq> [] \<and>
          (\<forall>c \<in> set (functionName line). \<not> is_white_space c) \<and>
          (r = [] \<or> is_white_space (hd r)) \<and>
          (\<forall>p' q'. line = p' @ at_marker @ q' \<and> length p' < length p \<longrightarrow>
                   q' = [] \<or> is_white_space (hd q')))"
proof (cases "match_at line")
  case None
  then have "functionName line = unknown" by (simp add: functionName_def)
  moreover from None have "\<forall>p q. line = p @ at_marker @ q \<longrightarrow> q = [] \<or> is_white_space (hd q)"
    using match_at_None by blast
  ultimately show ?thesis by blast
next
  case (Some g)
  then have "functionName line = g" by (simp add: functionName_def)
  with match_at_Some [OF Some] show ?thesis by simp
qed

text \<open>
  C5. For a failing producer whose trace (\<^verbatim>\<open>error.stack || ''\<close>) is a string, a
  primitive or a String object, with text \<open>s\<close>, and a context without the keys \<^verbatim>\<open>location\<close> and \<^verbatim>\<open>function\<close>, the failure path
  splits the trace at line feeds and takes the line of index 1, with its leading and
  trailing white space removed, as the relevant frame; the sentinel stands in when
  there is no such line or nothing is left of it. \<^verbatim>\<open>err.location\<close> is that frame.
  \<^verbatim>\<open>err.function\<close> is the run of non-white-space code units right after the leftmost
  \<^verbatim>\<open>at \<close> of the frame that has such a run after it, ended by white space or by the
  end of the frame; it is \<^verbatim>\<open>unknown\<close> when no \<^verbatim>\<open>at \<close> of the frame is followed by
  a non-white-space code unit.
\<close>

theorem tryState_trace_parsing:
  assumes "fn = Rejects error \<or> fn = Throws error"
    and "stack_of error = Inr stack" and "string_value stack = Some s"
    and "key_location \<notin> set (context_keys additionalContext)"
    and "key_function \<notin> set (context_keys additionalContext)"
  shows "\<exists>err meta frame f.
           tryState clk fn initialValue additionalContext
             = Fulfilled (initialValue, Some err, Some meta) \<and>
           map_of err key_location = Some (String frame) \<and>
           map_of err key_function = Some (String f) \<and>
           frame = (case index (split_str newline s) 1 of
                      None \<Rightarrow> location_sentinel
                    | Some l \<Rightarrow> if trim l = [] then location_sentinel else trim l) \<and>
           ((f = unknown \<and>
               (\<forall>p q. frame = p @ at_marker @ q \<longrightarrow> q = [] \<or> is_white_space (hd q)))
            \<or> (\<exists>p r. frame = p @ at_marker @ f @ r \<and>
                   f \<noteq> [] \<and> (\<forall>c \<in> set f. \<not> is_white_space c) \<and>
                   (r = [] \<or> is_white_space (hd r)) \<and>
                   (\<forall>p' q'. frame = p' @ at_marker @ q' \<and> length p' < length p \<longrightarrow>
                            q' = [] \<or> is_white_space (hd q'))))"
proof -
  obtain m where m: "Get error key_message = Inr m"
    using stack_of_Inr_Get [OF assms(2)] by blast
  let ?err = "spread (fixed_fields m stack s) additionalContext"
  let ?frame = "relevantLine (split_str newline s)"
  have "map_of ?err key_location = Some (String ?frame)"
    using assms(4) by (simp add: map_of_spread_other map_of_fixed_fields)
  moreover have "map_of ?err key_function = Some (String (functionName ?frame))"
    using assms(5) by (simp add: map_of_spread_other map_of_fixed_fields)
  moreover have "?frame = (case index (split_str newline s) 1 of
                      None \<Rightarrow> location_sentinel
                    | Some l \<Rightarrow> if trim l = [] then location_sentinel else trim l)"
    by (simp only: relevantLine_def)
  moreover note functionName_cases [of ?frame]
    tryState_failure [OF assms(1,2,3) m, of clk initialValue additionalContext]
  ultimately show ?thesis by blast
qed

theorem tryState_trace_parsing_witness:
  "(Rejects sample_error = Rejects sample_error \<or>
    Rejects sample_error = (Throws sample_error :: string producer)) \<and>
   stack_of sample_error = Inr (String sample_trace) \<and>
   string_value (String sample_trace) = Some sample_trace \<and>
   key_location \<notin> set (context_keys sample_context) \<and>
   key_function \<notin> set (context_keys sample_context) \<and>
   (\<exists>err meta frame f.
           tryState sample_clock (Rejects sample_error) ''Default Value'' sample_context
             = Fulfilled (''Default Value'', Some err, Some meta) \<and>
           map_of err key_location = Some (String frame) \<and>
           map_of err key_function = Some (String f) \<and>
           frame = (case index (split_str newline sample_trace) 1 of
                      None \<Rightarrow> location_sentinel
                    | Some l \<Rightarrow> if trim l = [] then location_sentinel else trim l) \<and>
           ((f = unknown \<and>
               (\<forall>p q. frame = p @ at_marker @ q \<longrightarrow> q = [] \<or> is_white_space (hd q)))
            \<or> (\<exists>p r. frame = p @ at_marker @ f @ r \<and>
                   f \<noteq> [] \<and> (\<forall>c \<in> set f. \<not> is_white_space c) \<and>
                   (r = [] \<or> is_white_space (hd r)) \<and>
                   (\<forall>p' q'. frame = p' @ at_marker @ q' \<and> length p' < length p \<longrightarrow>
                            q' = [] \<or> is_white_space (hd q')))))"
  using tryState_trace_parsing
    [OF sample_fails sample_stack_of sample_string_value sample_keys(4) sample_keys(3),
     of sample_clock "''Default Value''"]
    sample_fails [where ?'a = string] sample_stack_of sample_string_value
    sample_keys(4) sample_keys(3)
  by blast

text \<open>
  The frame is not the second line as it stands: the second line of the sample trace
  begins with four spaces, and \<^verbatim>\<open>err.location\<close> does not.
\<close>

theorem tryState_location_untrimmed_counterexample:
  "index (split_str newline sample_trace) 1 = Some (ascii ''    at performTask (task.js:4:9)'') \<and>
   error_field (tryState sample_clock (Rejects sample_error) (0::nat) None) key_location
   = Some (String (ascii ''at performTask (task.js:4:9)''))"
proof -
  have "tryState sample_clock (Rejects sample_error) (0::nat) None
        = Fulfilled (0,
            Some (spread (fixed_fields (String (ascii ''Simulated Task Error''))
                            (String sample_trace) sample_trace) None),
            Some \<lparr>executionTimeMs = now_settled sample_clock - now_start sample_clock,
                  timestamp = iso_start sample_clock\<rparr>)"
    using sample_fails sample_stack_of sample_string_value sample_message
    by (rule tryState_failure)
  then have "error_field (tryState sample_clock (Rejects sample_error) (0::nat) None) key_location
             = Some (String (ascii ''at performTask (task.js:4:9)''))"
    by (simp add: error_field_def returned_error_def spread_def map_of_fixed_fields
        sample_relevantLine)
  moreover have "index (split_str newline sample_trace) 1
                 = Some (ascii ''    at performTask (task.js:4:9)'')"
    by (simp add: sample_lines index_def)
  ultimately show ?thesis by simp
qed

text \<open>
  C8. On the failure path (the trace \<^verbatim>\<open>error.stack || ''\<close> a primitive string or a
  String object with text \<open>s\<close>), with a context that has no key \<^verbatim>\<open>location\<close>,
  \<^verbatim>\<open>err.location\<close> is the second line of the trace without its leading and trailing
  white space: it is a non-empty part of that line that begins and ends with a
  non-white-space code unit, with only white space before and after it. The sentinel is
  substituted when there is no second line, and also when the second line is empty or
  holds white space only.
\<close>

theorem tryState_location_trimmed:
  assumes "fn = Rejects error \<or> fn = Throws error"
    and "stack_of error = Inr stack" and "string_value stack = Some s"
    and "key_location \<notin> set (context_keys additionalContext)"
  shows "\<exists>err meta loc.
           tryState clk fn initialValue additionalContext
             = Fulfilled (initialValue, Some err, Some meta) \<and>
           map_of err key_location = Some (String loc) \<and>
           (case index (split_str newline s) 1 of
              None \<Rightarrow> loc = location_sentinel
            | Some l \<Rightarrow>
                if (\<forall>c \<in> set l. is_white_space c) then loc = location_sentinel
                else loc \<noteq> [] \<and> \<not> is_white_space (hd loc) \<and> \<not> is_white_space (last loc) \<and>
                     (\<exists>pre post. l = pre @ loc @ post \<and>
                        (\<forall>c \<in> set pre. is_white_space c) \<and>
                        (\<forall>c \<in> set post. is_white_space c)))"
proof -
  obtain m where m: "Get error key_message = Inr m"
    using stack_of_Inr_Get [OF assms(2)] by blast
  let ?err = "spread (fixed_fields m stack s) additionalContext"
  let ?loc = "relevantLine (split_str newline s)"
  have loc: "map_of ?err key_location = Some (String ?loc)"
    using assms(4) by (simp add: map_of_spread_other map_of_fixed_fields)
  have shape: "case index (split_str newline s) 1 of
              None \<Rightarrow> ?loc = location_sentinel
            | Some l \<Rightarrow>
                if (\<forall>c \<in> set l. is_white_space c) then ?loc = location_sentinel
                else ?loc \<noteq> [] \<and> \<not> is_white_space (hd ?loc) \<and> \<not> is_white_space (last ?loc) \<and>
                     (\<exists>pre post. l = pre @ ?loc @ post \<and>
                        (\<forall>c \<in> set pre. is_white_space c) \<and>
                        (\<forall>c \<in> set post. is_white_space c))"
  proof (cases "index (split_str newline s) 1")
    case None
    then show ?thesis by (simp add: relevantLine_def)
  next
    case (Some l)
    show ?thesis
    proof (cases "trim l = []")
      case True
      with Some show ?thesis by (simp add: relevantLine_def trim_Nil_iff)
    next
      case False
      with Some have eq: "?loc = trim l" by (simp add: relevantLine_def)
      from False have "\<not> (\<forall>c \<in> set l. is_white_space c)" by (simp add: trim_Nil_iff)
      with Some False trim_ends [OF False] trim_decompose [of l] show ?thesis
        unfolding eq by auto
    qed
  qed
  from tryState_failure [OF assms(1,2,3) m, of clk initialValue additionalContext] loc shape
  show ?thesis by blast
qed

theorem tryState_location_trimmed_witness:
  "(Rejects sample_error = Rejects sample_error \<or>
    Rejects sample_error = (Throws sample_error :: string producer)) \<and>
   stack_of sample_error = Inr (String sample_trace) \<and>
   string_value (String sample_trace) = Some sample_trace \<and>
   key_location \<notin> set (context_keys sample_context) \<and>
   (\<exists>err meta loc.
           tryState sample_clock (Rejects sample_error) ''Default Value'' sample_context
             = Fulfilled (''Default Value'', Some err, Some meta) \<and>
           map_of err key_location = Some (String loc) \<and>
           (case index (split_str newline sample_trace) 1 of
              None \<Rightarrow> loc = location_sentinel
            | Some l \<Rightarrow>
                if (\<forall>c \<in> set l. is_white_space c) then loc = location_sentinel
                else loc \<noteq> [] \<and> \<not> is_white_space (hd loc) \<and> \<not> is_white_space (last loc) \<and>
                     (\<exists>pre post. l = pre @ loc @ post \<and>
                        (\<forall>c \<in> set pre. is_white_space c) \<and>
                        (\<forall>c \<in> set post. is_white_space c))))"
  using tryState_location_trimmed
    [OF sample_fails sample_stack_of sample_string_value sample_keys(4),
     of sample_clock "''Default Value''"]
    sample_fails [where ?'a = string] sample_stack_of sample_string_value sample_keys(4)
  by blast

text \<open>
  With a context that has the key \<^verbatim>\<open>location\<close>, \<^verbatim>\<open>err.location\<close> is the
  context's value and not the trimmed second line.
\<close>

theorem tryState_location_overwritten_counterexample:
  "trim (ascii ''    at performTask (task.js:4:9)'') = ascii ''at performTask (task.js:4:9)'' \<and>
   index (split_str newline sample_trace) 1 = Some (ascii ''    at performTask (task.js:4:9)'') \<and>
   error_field
     (tryState sample_clock (Rejects sample_error) (0::nat)
        (Some [(key_location, String (ascii ''here''))]))
     key_location
   = Some (String (ascii ''here''))"
proof -
  have "tryState sample_clock (Rejects sample_error) (0::nat)
          (Some [(key_location, String (ascii ''here''))])
        = Fulfilled (0,
            Some (spread (fixed_fields (String (ascii ''Simulated Task Error''))
                            (String sample_trace) sample_trace)
                    (Some [(key_location, String (ascii ''here''))])),
            Some \<lparr>executionTimeMs = now_settled sample_clock - now_start sample_clock,
                  timestamp = iso_start sample_clock\<rparr>)"
    using sample_fails sample_stack_of sample_string_value sample_message
    by (rule tryState_failure)
  then have "error_field
     (tryState sample_clock (Rejects sample_error) (0::nat)
        (Some [(key_location, String (ascii ''here''))]))
     key_location
   = Some (String (ascii ''here''))"
    by (simp add: error_field_def returned_error_def map_of_spread_context)
  moreover have "index (split_str newline sample_trace) 1
                 = Some (ascii ''    at performTask (task.js:4:9)'')"
    by (simp add: sample_lines index_def)
  moreover have "trim (ascii ''    at performTask (task.js:4:9)'')
                 = ascii ''at performTask (task.js:4:9)''"
    by (simp add: trim_def ascii_def is_white_space_def)
  ultimately show ?thesis by simp
qed

text \<open>
  C9. For every failure outcome whose context has no key \<^verbatim>\<open>function\<close>,
  \<^verbatim>\<open>err.function\<close> is a string: either \<^verbatim>\<open>unknown\<close>, or a non-empty string without
  white space.
\<close>

theorem tryState_function_token:
  assumes "tryState clk fn initialValue additionalContext = Fulfilled (v, Some err, meta)"
    and "key_function \<notin> set (context_keys additionalContext)"
  shows "\<exists>f. map_of err key_function = Some (String f) \<and>
             (f = unknown \<or> (f \<noteq> [] \<and> (\<forall>c \<in> set f. \<not> is_white_space c)))"
proof -
  from tryState_Fulfilled_error [OF assms(1)] obtain stack s message where
    err: "err = spread (fixed_fields message stack s) additionalContext"
    by blast
  have "map_of err key_function
        = Some (String (functionName (relevantLine (split_str newline s))))"
    unfolding err using assms(2) by (simp add: map_of_spread_other map_of_fixed_fields)
  with functionName_shape [of "relevantLine (split_str newline s)"]
  show ?thesis by blast
qed

theorem tryState_function_token_witness:
  "tryState sample_clock (Rejects sample_error) ''Default Value'' sample_context
     = Fulfilled (''Default Value'', Some sample_details, Some sample_metadata) \<and>
   key_function \<notin> set (context_keys sample_context) \<and>
   (\<exists>f. map_of sample_details key_function = Some (String f) \<and>
        (f = unknown \<or> (f \<noteq> [] \<and> (\<forall>c \<in> set f. \<not> is_white_space c))))"
  using tryState_function_token [OF sample_run [of "''Default Value''"] sample_keys(3)]
    sample_run [of "''Default Value''"] sample_keys(3)
  by blast

lemma tryState_Fulfilled_stack:
  assumes "tryState clk fn initialValue additionalContext = Fulfilled (v, Some err, meta)"
  shows "\<exists>error st. (fn = Rejects error \<or> fn = Throws error) \<and>
           Get error key_stack = Inr st \<and> (\<not> truthy st \<or> string_value st \<noteq> None)"
proof -
  from tryState_Fulfilled_error [OF assms] obtain error stack s where
    fn: "fn = Rejects error \<or> fn = Throws error"
    and stack: "stack_of error = Inr stack" "string_value stack = Some s"
    by blast
  from stack(1) obtain st where st: "Get error key_stack = Inr st"
    and "stack = (if truthy st then st else String [])"
    by (auto simp: stack_of_def split: sum.splits)
  with stack(2) have "\<not> truthy st \<or> string_value st \<noteq> None"
    by (auto split: if_splits)
  with fn st show ?thesis by blast
qed

text \<open>
  C10. For every failure outcome whose context has no key \<^verbatim>\<open>stack\<close>, \<^verbatim>\<open>err.stack\<close>
  is present. A failure outcome arises exactly when the thrown value can be read and its
  \<^verbatim>\<open>stack\<close> is falsy or has the string methods (\<open>tryState_Fulfilled_stack\<close> above);
  then \<^verbatim>\<open>tryState\<close> is fulfilled with its failure tuple, and \<^verbatim>\<open>err.stack\<close> is the
  \<^verbatim>\<open>stack\<close> of the thrown value as it is when that is truthy (the full trace text when
  it is a primitive string) and the empty string, not an absent field, when it is
  absent or otherwise falsy.
\<close>

theorem tryState_stack_field:
  assumes "fn = Rejects error \<or> fn = Throws error"
    and "Get error key_stack = Inr st"
    and "\<not> truthy st \<or> string_value st \<noteq> None"
    and "key_stack \<notin> set (context_keys additionalContext)"
  shows "\<exists>err meta. tryState clk fn initialValue additionalContext
                      = Fulfilled (initialValue, Some err, Some meta) \<and>
                    map_of err key_stack = Some (if truthy st then st else String [])"
proof -
  let ?stack = "if truthy st then st else String []"
  from assms(2) have stack: "stack_of error = Inr ?stack"
    by (simp add: stack_of_def)
  from assms(3) obtain s where s: "string_value ?stack = Some s"
    by (cases "truthy st") auto
  from stack obtain m where m: "Get error key_message = Inr m"
    using stack_of_Inr_Get by blast
  have "map_of (spread (fixed_fields m ?stack s) additionalContext) key_stack = Some ?stack"
    using assms(4) by (simp add: map_of_spread_other map_of_fixed_fields)
  with tryState_failure [OF assms(1) stack s m, of clk initialValue additionalContext]
  show ?thesis by blast
qed

text \<open>
  Two calls: the sample error, whose \<^verbatim>\<open>stack\<close> is a primitive string, and a thrown
  string \<^verbatim>\<open>'oops'\<close>, which has no \<^verbatim>\<open>stack\<close> and gets the empty string.
\<close>

theorem tryState_stack_field_witness:
  "(Rejects sample_error = Rejects sample_error \<or>
    Rejects sample_error = (Throws sample_error :: string producer)) \<and>
   Get sample_error key_stack = Inr (String sample_trace) \<and>
   string_value (String sample_trace) \<noteq> None \<and>
   truthy (String sample_trace) \<and>
   key_stack \<notin> set (context_keys sample_context) \<and>
   (\<exists>err meta. tryState sample_clock (Rejects sample_error) ''Default Value'' sample_context
                  = Fulfilled (''Default Value'', Some err, Some meta) \<and>
                map_of err key_stack = Some (String sample_trace)) \<and>
   (Throws (String (ascii ''oops'')) = Rejects (String (ascii ''oops'')) \<or>
    Throws (String (ascii ''oops'')) = (Throws (String (ascii ''oops'')) :: string producer)) \<and>
   Get (String (ascii ''oops'')) key_stack = Inr Undefined \<and>
   \<not> truthy Undefined \<and>
   (\<exists>err meta. tryState sample_clock (Throws (String (ascii ''oops''))) ''Default Value''
                  sample_context
                = Fulfilled (''Default Value'', Some err, Some meta) \<and>
              map_of err key_stack = Some (String []))"
proof -
  let ?e = "String (ascii ''oops'')"
  have a1: "Get sample_error key_stack = Inr (String sample_trace)"
    by (simp add: sample_error_def key_message_def key_stack_def ascii_def)
  have a2: "string_value (String sample_trace) \<noteq> None" by simp
  have a3: "truthy (String sample_trace)"
    by (simp add: sample_trace_def ascii_def)
  from a2 have a4: "\<not> truthy (String sample_trace) \<or> string_value (String sample_trace) \<noteq> None"
    by (rule disjI2)
  have b1: "Throws ?e = Rejects ?e \<or> Throws ?e = (Throws ?e :: string producer)" by simp
  have b2: "Get ?e key_stack = Inr Undefined" by simp
  have b3: "\<not> truthy Undefined" by simp
  from b3 have b4: "\<not> truthy Undefined \<or> string_value Undefined \<noteq> None"
    by (rule disjI1)
  from tryState_stack_field [OF sample_fails a1 a4 sample_keys(2), of sample_clock "''Default Value''"]
    a3
  have first: "\<exists>err meta. tryState sample_clock (Rejects sample_error) ''Default Value''
                    sample_context
                  = Fulfilled (''Default Value'', Some err, Some meta) \<and>
                map_of err key_stack = Some (String sample_trace)"
    by simp
  from tryState_stack_field [OF b1 b2 b4 sample_keys(2), of sample_clock "''Default Value''"]
  have second: "\<exists>err meta. tryState sample_clock (Throws ?e) ''Default Value'' sample_context
                  = Fulfilled (''Default Value'', Some err, Some meta) \<and>
                map_of err key_stack = Some (String [])"
    by simp
  from first second sample_fails [where ?'a = string] a1 a2 a3 sample_keys(2) b1 b2 b3
  show ?thesis by blast
qed

text \<open>
  \<^verbatim>\<open>err.stack\<close> is not always a string: when the \<^verbatim>\<open>stack\<close> of the thrown object is a
  String object, line 78 splits it, the call returns its failure tuple, and
  \<^verbatim>\<open>err.stack\<close> is that object, not the primitive string of the same text.
\<close>

theorem tryState_stack_object_counterexample:
  "error_field
     (tryState sample_clock (Rejects (Object [(key_stack, StringObject sample_trace)])) (0::nat)
        None)
     key_stack
   = Some (StringObject sample_trace) \<and>
   StringObject sample_trace \<noteq> String sample_trace \<and>
   error_field
     (tryState sample_clock (Rejects (Object [(key_stack, StringObject sample_trace)])) (0::nat)
        None)
     key_location
   = Some (String (ascii ''at performTask (task.js:4:9)''))"
proof -
  let ?e = "Object [(key_stack, StringObject sample_trace)]"
  have fails: "Rejects ?e = Rejects ?e \<or> Rejects ?e = (Throws ?e :: nat producer)" by simp
  have stack: "stack_of ?e = Inr (StringObject sample_trace)"
    by (simp add: stack_of_def)
  have sv: "string_value (StringObject sample_trace) = Some sample_trace" by simp
  have message: "Get ?e key_message = Inr Undefined"
    using fixed_keys_distinct by simp
  from tryState_failure [OF fails stack sv message, of sample_clock 0 None]
  show ?thesis
    by (simp add: error_field_def returned_error_def spread_def map_of_fixed_fields
        sample_relevantLine)
qed

section \<open>The context merge\<close>



end
